theory Spec2Isabelle
  imports Complex_Main
begin

section \<open>Vectors\<close>

text \<open>
  The viewers keep positions, normals and colours as three-element Python lists or tuples
  of floats. A vector is a triple of reals: Python's floats are idealised as real numbers
  throughout, so rounding is not modelled.
\<close>

type_synonym vec3 = "real \<times> real \<times> real"

fun vx :: "vec3 \<Rightarrow> real" where "vx (x, y, z) = x"
fun vy :: "vec3 \<Rightarrow> real" where "vy (x, y, z) = y"
fun vz :: "vec3 \<Rightarrow> real" where "vz (x, y, z) = z"

text \<open>The squared Euclidean length of a vector: \<open>sum(x*x for x in n)\<close>.\<close>

fun mag2 :: "vec3 \<Rightarrow> real" where
  "mag2 (x, y, z) = x * x + y * y + z * z"

section \<open>Orbit camera\<close>

text \<open>
  \<open>class Camera\<close> of the three viewers: the fields the mutators read and write.
\<close>

record camera =
  distance :: real
  azimuth :: real
  elevation :: real
  target :: vec3

text \<open>
  \<open>Camera.rotate\<close> of \<open>usd_basic_viewer.py\<close> (sensitivity 0.5):
  \<^verbatim>\<open>
    self.azimuth -= dx * 0.5
    self.elevation += dy * 0.5
    self.elevation = max(-89, min(89, self.elevation))
  \<close>
\<close>

definition basic_rotate :: "camera \<Rightarrow> real \<Rightarrow> real \<Rightarrow> camera" where
  "basic_rotate self dx dy =
     self\<lparr>azimuth := azimuth self - dx * 0.5,
          elevation := max (- 89) (min 89 (elevation self + dy * 0.5))\<rparr>"

text \<open>
  \<open>Camera.rotate\<close> of \<open>usd_hydra_viewer.py\<close> and \<open>usd_hydra_viewer_pyqt6.py\<close>
  (sensitivity 0.3), otherwise the same three statements.
\<close>

definition hydra_rotate :: "camera \<Rightarrow> real \<Rightarrow> real \<Rightarrow> camera" where
  "hydra_rotate self dx dy =
     self\<lparr>azimuth := azimuth self - dx * 0.3,
          elevation := max (- 89) (min 89 (elevation self + dy * 0.3))\<rparr>"

text \<open>A sequence of mouse drags: each \<open>(dx, dy)\<close> is one call of \<open>rotate\<close>.\<close>

fun basic_rotate_all :: "camera \<Rightarrow> (real \<times> real) list \<Rightarrow> camera" where
  "basic_rotate_all self [] = self"
| "basic_rotate_all self ((dx, dy) # ds) = basic_rotate_all (basic_rotate self dx dy) ds"

fun hydra_rotate_all :: "camera \<Rightarrow> (real \<times> real) list \<Rightarrow> camera" where
  "hydra_rotate_all self [] = self"
| "hydra_rotate_all self ((dx, dy) # ds) = hydra_rotate_all (hydra_rotate self dx dy) ds"

text \<open>
  \<open>Camera.frame_bounds\<close> of \<open>usd_hydra_viewer_pyqt6.py\<close>; the one of
  \<open>usd_hydra_viewer.py\<close> computes the same centre and size and differs only in wrapping the
  centre in a \<open>Gf.Vec3d\<close> when USD is present.
  \<^verbatim>\<open>
    self.target = [(bbox_min[0] + bbox_max[0]) / 2, ...]
    size = max(bbox_max[0] - bbox_min[0], bbox_max[1] - bbox_min[1], bbox_max[2] - bbox_min[2])
    self.distance = size * 2.0 if size > 0 else 10.0
  \<close>
\<close>

definition frame_bounds :: "camera \<Rightarrow> vec3 \<Rightarrow> vec3 \<Rightarrow> camera" where
  "frame_bounds self bbox_min bbox_max =
     (let size = max (vx bbox_max - vx bbox_min)
                   (max (vy bbox_max - vy bbox_min) (vz bbox_max - vz bbox_min))
      in self\<lparr>target := ((vx bbox_min + vx bbox_max) / 2,
                          (vy bbox_min + vy bbox_max) / 2,
                          (vz bbox_min + vz bbox_max) / 2),
              distance := (if size > 0 then size * 2.0 else 10.0)\<rparr>)"

section \<open>Python sequences\<close>

text \<open>
  Subscripting a Python list, a numpy array or a USD \<open>VtArray\<close> with an integer: a negative
  index counts from the end, and an index outside \<open>[-len, len)\<close> raises \<open>IndexError\<close>.
\<close>

datatype py_error = IndexError

definition py_index :: "'a list \<Rightarrow> int \<Rightarrow> py_error + 'a" where
  "py_index xs i =
     (if 0 \<le> i \<and> i < int (length xs) then Inr (xs ! nat i)
      else if - int (length xs) \<le> i \<and> i < 0 then Inr (xs ! nat (int (length xs) + i))
      else Inl IndexError)"

text \<open>
  A \<open>for\<close> loop whose body may raise and otherwise emits a list of items: the bodies run in
  order, the first exception ends the loop, and the emitted items are concatenated.
\<close>

fun for_each :: "('a \<Rightarrow> py_error + 'b list) \<Rightarrow> 'a list \<Rightarrow> py_error + 'b list" where
  "for_each body [] = Inr []"
| "for_each body (x # xs) =
     (case body x of
        Inl e \<Rightarrow> Inl e
      | Inr ys \<Rightarrow> (case for_each body xs of Inl e \<Rightarrow> Inl e | Inr zs \<Rightarrow> Inr (ys @ zs)))"

section \<open>Face normals\<close>

definition sub3 :: "vec3 \<Rightarrow> vec3 \<Rightarrow> vec3" where
  "sub3 a b = (vx a - vx b, vy a - vy b, vz a - vz b)"

text \<open>
  The cross product as the Hydra viewers write it out (and as \<open>np.cross\<close> computes it):
  \<^verbatim>\<open>
    n = [e1[1]*e2[2] - e1[2]*e2[1], e1[2]*e2[0] - e1[0]*e2[2], e1[0]*e2[1] - e1[1]*e2[0]]
  \<close>
\<close>

definition cross :: "vec3 \<Rightarrow> vec3 \<Rightarrow> vec3" where
  "cross e1 e2 = (vy e1 * vz e2 - vz e1 * vy e2,
                  vz e1 * vx e2 - vx e1 * vz e2,
                  vx e1 * vy e2 - vy e1 * vx e2)"

text \<open>
  Normalisation with the fallback, as in \<open>Mesh.compute_normals\<close> of the basic viewer and
  \<open>GLViewport.render_mesh\<close> of the PyQt6 viewer:
  \<^verbatim>\<open>
    length = math.sqrt(sum(x*x for x in n))
    if length > 0: n = [x/length for x in n]
    else:          n = [0, 1, 0]
  \<close>
\<close>

definition normalize_or_up :: "vec3 \<Rightarrow> vec3" where
  "normalize_or_up n =
     (let length = sqrt (mag2 n)
      in if length > 0 then (vx n / length, vy n / length, vz n / length) else (0, 1, 0))"

text \<open>
  Normalisation in \<open>HydraViewport.render_mesh_simple\<close> of \<open>usd_hydra_viewer.py\<close>: the
  \<open>if\<close> has no \<open>else\<close>, so a zero cross product is passed on as it is.
  \<^verbatim>\<open>
    length = math.sqrt(sum(x*x for x in n))
    if length > 0: n = [x/length for x in n]
  \<close>
\<close>

definition normalize_simple :: "vec3 \<Rightarrow> vec3" where
  "normalize_simple n =
     (let length = sqrt (mag2 n)
      in if length > 0 then (vx n / length, vy n / length, vz n / length) else n)"

section \<open>Scene prims and draw commands\<close>

text \<open>
  What the viewers read from a USD prim, as the values the attribute getters return at the
  time code of the frame: \<open>None\<close> is an attribute without a value. The world transform is the
  flattened matrix that \<open>ComputeLocalToWorldTransform\<close> returns; USD computes it, the viewers
  only pass it on.
\<close>

datatype prim_type = Mesh | Cube | Sphere | Cylinder | Cone | Capsule | Other

record prim =
  prim_type_of :: prim_type
  points_attr :: "vec3 list option"
  face_vertex_indices_attr :: "int list option"
  face_vertex_counts_attr :: "int list option"
  display_color_attr :: "vec3 list option"
  size_attr :: "real option"
  radius_attr :: "real option"
  height_attr :: "real option"
  world_transform :: "real list"

text \<open>The calls of the immediate-mode draw surface that the fallback renderers issue.\<close>

datatype gl_primitive = GL_TRIANGLES | GL_QUADS | GL_QUAD_STRIP | GL_TRIANGLE_FAN

datatype gl_polygon_mode = GL_FILL | GL_LINE | GL_POINT

datatype gl_call =
    glPushMatrix
  | glPopMatrix
  | glMultMatrix "real list"
  | glColor3f vec3
  | glPolygonMode gl_polygon_mode
  | glPointSize real
  | glBegin gl_primitive
  | glEnd
  | glNormal3f vec3
  | glVertex3f vec3

section \<open>Mesh of the basic viewer\<close>

text \<open>
  \<open>class Mesh\<close> of \<open>usd_basic_viewer.py\<close>. \<open>transform\<close> is the matrix as it is handed to
  \<open>glMultMatrixf\<close>.
\<close>

record mesh =
  vertices :: "vec3 list"
  normals :: "vec3 list"
  faces :: "int list list"
  color :: vec3
  transform :: "real list"

definition identity4 :: "real list" where
  "identity4 = [1, 0, 0, 0,  0, 1, 0, 0,  0, 0, 1, 0,  0, 0, 0, 1]"

text \<open>\<open>Mesh.__init__\<close>: empty geometry, the default colour, the identity transform.\<close>

definition Mesh_init :: mesh where
  "Mesh_init = \<lparr>vertices = [], normals = [], faces = [], color = (0.7, 0.7, 0.8),
                transform = identity4\<rparr>"

text \<open>
  \<open>Mesh.compute_normals\<close>: one normal per face of at least three indices. The vertex reads
  \<open>vertices[face[k]]\<close> are numpy subscripts and raise \<open>IndexError\<close> out of range.
\<close>

fun compute_normals_loop :: "vec3 list \<Rightarrow> int list list \<Rightarrow> py_error + vec3 list" where
  "compute_normals_loop vs [] = Inr []"
| "compute_normals_loop vs (face # fs) =
     (if length face \<ge> 3 then
        (case py_index vs (face ! 0) of Inl e \<Rightarrow> Inl e | Inr v0 \<Rightarrow>
         case py_index vs (face ! 1) of Inl e \<Rightarrow> Inl e | Inr v1 \<Rightarrow>
         case py_index vs (face ! 2) of Inl e \<Rightarrow> Inl e | Inr v2 \<Rightarrow>
         case compute_normals_loop vs fs of Inl e \<Rightarrow> Inl e | Inr ns \<Rightarrow>
           Inr (normalize_or_up (cross (sub3 v1 v0) (sub3 v2 v0)) # ns))
      else compute_normals_loop vs fs)"

definition compute_normals :: "mesh \<Rightarrow> py_error + mesh" where
  "compute_normals self =
     (case compute_normals_loop (vertices self) (faces self) of
        Inl e \<Rightarrow> Inl e
      | Inr ns \<Rightarrow> Inr (self\<lparr>normals := ns\<rparr>))"

text \<open>
  \<open>Mesh.render\<close>, the body of the \<open>glBegin(GL_TRIANGLES)\<close> block:
  \<^verbatim>\<open>
    for i, face in enumerate(self.faces):
        if i < len(self.normals):
            glNormal3fv(self.normals[i])
        for vertex_idx in face[:3]:
            if vertex_idx < len(self.vertices):
                glVertex3fv(self.vertices[vertex_idx])
  \<close>
  The guard on \<open>vertex_idx\<close> has an upper bound only; the subscript that follows it is a
  Python list subscript.
\<close>

definition render_vertex :: "vec3 list \<Rightarrow> int \<Rightarrow> py_error + gl_call list" where
  "render_vertex vs vertex_idx =
     (if vertex_idx < int (length vs)
      then (case py_index vs vertex_idx of Inl e \<Rightarrow> Inl e | Inr v \<Rightarrow> Inr [glVertex3f v])
      else Inr [])"

definition render_face :: "mesh \<Rightarrow> nat \<times> int list \<Rightarrow> py_error + gl_call list" where
  "render_face self p =
     (case p of (i, face) \<Rightarrow>
        (case for_each (render_vertex (vertices self)) (take 3 face) of
           Inl e \<Rightarrow> Inl e
         | Inr vcalls \<Rightarrow>
             Inr ((if i < length (normals self) then [glNormal3f (normals self ! i)] else [])
                  @ vcalls)))"

definition mesh_render :: "mesh \<Rightarrow> bool \<Rightarrow> py_error + gl_call list" where
  "mesh_render self wireframe =
     (case for_each (render_face self) (enumerate 0 (faces self)) of
        Inl e \<Rightarrow> Inl e
      | Inr body \<Rightarrow>
          Inr ([glPushMatrix, glMultMatrix (transform self)]
               @ (if wireframe then [glPolygonMode GL_LINE, glColor3f (0.2, 0.2, 0.2)]
                  else [glPolygonMode GL_FILL, glColor3f (color self)])
               @ [glBegin GL_TRIANGLES] @ body @ [glEnd]
               @ [glPolygonMode GL_FILL, glPopMatrix]))"

text \<open>
  The face loop of \<open>extract_mesh_from_prim\<close>. The inner loop runs \<open>count\<close> times (not at all
  for a negative count) and takes an index only while one is left:
  \<^verbatim>\<open>
    face = []
    for _ in range(count):
        if idx < len(indices):
            face.append(indices[idx]); idx += 1
  \<close>
\<close>

fun collect_face :: "int list \<Rightarrow> nat \<Rightarrow> nat \<Rightarrow> int list \<times> nat" where
  "collect_face indices 0 idx = ([], idx)"
| "collect_face indices (Suc n) idx =
     (if idx < length indices
      then (case collect_face indices n (idx + 1) of
              (face, idx') \<Rightarrow> (indices ! idx # face, idx'))
      else collect_face indices n idx)"

text \<open>
  Fan triangulation of one collected face:
  \<^verbatim>\<open>
    if len(face) >= 3:
        for i in range(1, len(face) - 1):
            mesh.faces.append([face[0], face[i], face[i + 1]])
  \<close>
\<close>

definition fan :: "int list \<Rightarrow> int list list" where
  "fan face =
     (if length face \<ge> 3
      then map (\<lambda>i. [face ! 0, face ! i, face ! (i + 1)]) [1..<length face - 1]
      else [])"

fun extract_faces :: "int list \<Rightarrow> int list \<Rightarrow> nat \<Rightarrow> int list list" where
  "extract_faces indices [] idx = []"
| "extract_faces indices (count # counts) idx =
     (case collect_face indices (nat count) idx of
        (face, idx') \<Rightarrow> fan face @ extract_faces indices counts idx')"

text \<open>
  \<open>extract_mesh_from_prim\<close>: the vertices, the triangulated faces, the colour (the first
  display colour when there is one, else the colour \<open>Mesh.__init__\<close> set) and the normals.
\<close>

definition extract_mesh_from_prim :: "prim \<Rightarrow> py_error + mesh" where
  "extract_mesh_from_prim p =
     compute_normals
       (Mesh_init
         \<lparr>vertices := (case points_attr p of Some ps \<Rightarrow> ps | None \<Rightarrow> []),
          faces := (case (face_vertex_indices_attr p, face_vertex_counts_attr p) of
                      (Some indices, Some counts) \<Rightarrow>
                         if indices \<noteq> [] \<and> counts \<noteq> [] then extract_faces indices counts 0 else []
                    | _ \<Rightarrow> []),
          color := (case display_color_attr p of
                      Some (c # cs) \<Rightarrow> c
                    | _ \<Rightarrow> color Mesh_init),
          transform := world_transform p\<rparr>)"

section \<open>Mesh rendering of the Hydra viewers\<close>

text \<open>The state of a viewport that the fallback renderers read.\<close>

datatype draw_mode = Shaded | Wireframe | Points

record viewport =
  draw_mode_of :: draw_mode
  enable_lighting :: bool
  time_code :: real

text \<open>\<open>points[indices[k]]\<close>: two subscripts, each of which may raise.\<close>

definition fetch :: "vec3 list \<Rightarrow> int list \<Rightarrow> int \<Rightarrow> py_error + vec3" where
  "fetch points indices k =
     (case py_index indices k of Inl e \<Rightarrow> Inl e | Inr a \<Rightarrow> py_index points a)"

text \<open>
  The body of the inner loop \<open>for i in range(1, count - 1)\<close> of \<open>GLViewport.render_mesh\<close> and
  of \<open>HydraViewport.render_mesh_simple\<close>, which differ in the normalisation only: the
  two further corners, the normal of \<open>(v1 - v0) x (v2 - v0)\<close>, and the four calls.
\<close>

definition triangle_calls :: "(vec3 \<Rightarrow> vec3) \<Rightarrow> vec3 \<Rightarrow> vec3 \<Rightarrow> vec3 \<Rightarrow> gl_call list" where
  "triangle_calls nrm v0 v1 v2 =
     [glNormal3f (nrm (cross (sub3 v1 v0) (sub3 v2 v0))),
      glVertex3f v0, glVertex3f v1, glVertex3f v2]"

definition emit_triangle ::
  "(vec3 \<Rightarrow> vec3) \<Rightarrow> vec3 list \<Rightarrow> int list \<Rightarrow> int \<Rightarrow> vec3 \<Rightarrow> int \<Rightarrow> py_error + gl_call list" where
  "emit_triangle nrm points indices idx v0 i =
     (case fetch points indices (idx + i) of Inl e \<Rightarrow> Inl e | Inr v1 \<Rightarrow>
      case fetch points indices (idx + i + 1) of Inl e \<Rightarrow> Inl e | Inr v2 \<Rightarrow>
        Inr (triangle_calls nrm v0 v1 v2))"

text \<open>
  The face loop of both functions:
  \<^verbatim>\<open>
    idx = 0
    for count in counts:
        if count >= 3:
            v0 = points[indices[idx]]
            for i in range(1, count - 1):
                ...
        idx += count
  \<close>
\<close>

fun triangulate ::
  "(vec3 \<Rightarrow> vec3) \<Rightarrow> vec3 list \<Rightarrow> int list \<Rightarrow> int list \<Rightarrow> int \<Rightarrow> py_error + gl_call list" where
  "triangulate nrm points indices [] idx = Inr []"
| "triangulate nrm points indices (count # counts) idx =
     (if count \<ge> 3 then
        (case fetch points indices idx of Inl e \<Rightarrow> Inl e | Inr v0 \<Rightarrow>
         case for_each (emit_triangle nrm points indices idx v0) [1..count - 2] of
           Inl e \<Rightarrow> Inl e | Inr tris \<Rightarrow>
         case triangulate nrm points indices counts (idx + count) of
           Inl e \<Rightarrow> Inl e | Inr rest \<Rightarrow> Inr (tris @ rest))
      else triangulate nrm points indices counts (idx + count))"

text \<open>
  \<open>GLViewport.get_display_color(prim, default=(0.7, 0.7, 0.8))\<close>: the first display colour
  when the attribute holds at least one, else the default of the call.
\<close>

definition get_display_color :: "prim \<Rightarrow> vec3 \<Rightarrow> vec3" where
  "get_display_color p dflt =
     (case display_color_attr p of Some (c # cs) \<Rightarrow> c | _ \<Rightarrow> dflt)"

definition default_display_color :: vec3 where
  "default_display_color = (0.7, 0.7, 0.8)"

text \<open>
  \<open>GLViewport.render_mesh\<close> of \<open>usd_hydra_viewer_pyqt6.py\<close>: nothing is drawn when points,
  indices or counts are \<open>None\<close> or empty (\<open>if not points or not indices or not counts:
  return\<close>); the colour is asked for without a default
  argument.
\<close>

definition render_mesh :: "viewport \<Rightarrow> prim \<Rightarrow> py_error + gl_call list" where
  "render_mesh self p =
     (case (points_attr p, face_vertex_indices_attr p, face_vertex_counts_attr p) of
        (Some points, Some indices, Some counts) \<Rightarrow>
          if points = [] \<or> indices = [] \<or> counts = [] then Inr []
          else
        (case triangulate normalize_or_up points indices counts 0 of
           Inl e \<Rightarrow> Inl e
         | Inr tris \<Rightarrow>
             Inr ([glPushMatrix, glMultMatrix (world_transform p),
                   glColor3f (get_display_color p default_display_color)]
                  @ (case draw_mode_of self of
                       Wireframe \<Rightarrow> [glPolygonMode GL_LINE]
                     | Points \<Rightarrow> [glPolygonMode GL_POINT, glPointSize 3]
                     | Shaded \<Rightarrow> [])
                  @ [glBegin GL_TRIANGLES] @ tris @ [glEnd]
                  @ [glPolygonMode GL_FILL, glPopMatrix]))
      | _ \<Rightarrow> Inr [])"

text \<open>
  \<open>HydraViewport.render_mesh_simple\<close> of \<open>usd_hydra_viewer.py\<close>: the same guard and loop,
  the colour chosen in place, no polygon mode.
\<close>

definition render_mesh_simple :: "viewport \<Rightarrow> prim \<Rightarrow> py_error + gl_call list" where
  "render_mesh_simple self p =
     (case (points_attr p, face_vertex_indices_attr p, face_vertex_counts_attr p) of
        (Some points, Some indices, Some counts) \<Rightarrow>
          if points = [] \<or> indices = [] \<or> counts = [] then Inr []
          else
        (case triangulate normalize_simple points indices counts 0 of
           Inl e \<Rightarrow> Inl e
         | Inr tris \<Rightarrow>
             Inr ([glPushMatrix, glMultMatrix (world_transform p),
                   (case display_color_attr p of
                      Some (c # cs) \<Rightarrow> glColor3f c
                    | _ \<Rightarrow> glColor3f (0.7, 0.7, 0.8))]
                  @ [glBegin GL_TRIANGLES] @ tris @ [glEnd]
                  @ [glPopMatrix]))
      | _ \<Rightarrow> Inr [])"

section \<open>Primitive rendering of the PyQt6 viewer\<close>

text \<open>
  \<open>attr.Get() or d\<close>: Python's \<open>or\<close> yields the default when the value is \<open>None\<close> and also
  when it is zero.
\<close>

definition py_or :: "real option \<Rightarrow> real \<Rightarrow> real" where
  "py_or v d = (case v of None \<Rightarrow> d | Some x \<Rightarrow> if x = 0 then d else x)"

text \<open>\<open>angle = 2 * math.pi * i / slices\<close>\<close>

definition angle_of :: "nat \<Rightarrow> nat \<Rightarrow> real" where
  "angle_of i slices = 2 * pi * real i / real slices"

text \<open>
  \<open>GLViewport.render_cube\<close>: the eight corners, the six faces (four corner numbers and the
  face's normal), drawn as one \<open>GL_QUADS\<close> batch with one \<open>glNormal3f\<close> per face.
\<close>

definition cube_vertices :: "real \<Rightarrow> vec3 list" where
  "cube_vertices half =
     [(- half, - half, - half), (half, - half, - half),
      (half, half, - half), (- half, half, - half),
      (- half, - half, half), (half, - half, half),
      (half, half, half), (- half, half, half)]"

definition cube_faces :: "(nat \<times> nat \<times> nat \<times> nat \<times> vec3) list" where
  "cube_faces =
     [(0, 1, 2, 3, (0, 0, - 1)),
      (4, 7, 6, 5, (0, 0, 1)),
      (0, 3, 7, 4, (- 1, 0, 0)),
      (1, 5, 6, 2, (1, 0, 0)),
      (0, 4, 5, 1, (0, - 1, 0)),
      (3, 2, 6, 7, (0, 1, 0))]"

definition render_cube :: "viewport \<Rightarrow> prim \<Rightarrow> gl_call list" where
  "render_cube self p =
     (let size = py_or (size_attr p) 1.0;
          half = size / 2
      in [glPushMatrix, glMultMatrix (world_transform p),
          glColor3f (get_display_color p (0.3, 0.5, 0.8))]
         @ [glBegin GL_QUADS]
         @ concat (map (\<lambda>(a, b, c, d, n).
                      glNormal3f n # map (\<lambda>i. glVertex3f (cube_vertices half ! i)) [a, b, c, d])
                    cube_faces)
         @ [glEnd]
         @ [glPopMatrix])"

text \<open>
  \<open>GLViewport.render_sphere\<close>: one quad strip per stack, 24 slices and 16 stacks.
  \<^verbatim>\<open>
    lat0 = math.pi * (-0.5 + float(i) / stacks)
    z0 = radius * math.sin(lat0);  zr0 = radius * math.cos(lat0)
    ...
    glNormal3f(x * zr0 / radius, y * zr0 / radius, z0 / radius)
    glVertex3f(x * zr0, y * zr0, z0)
  \<close>
\<close>

definition sphere_strip :: "real \<Rightarrow> nat \<Rightarrow> nat \<Rightarrow> nat \<Rightarrow> gl_call list" where
  "sphere_strip radius slices stacks i =
     (let lat0 = pi * (- 0.5 + real i / real stacks);
          z0 = radius * sin lat0;
          zr0 = radius * cos lat0;
          lat1 = pi * (- 0.5 + real (i + 1) / real stacks);
          z1 = radius * sin lat1;
          zr1 = radius * cos lat1
      in [glBegin GL_QUAD_STRIP]
         @ concat (map (\<lambda>j.
               (let lng = angle_of j slices; x = cos lng; y = sin lng
                in [glNormal3f (x * zr0 / radius, y * zr0 / radius, z0 / radius),
                    glVertex3f (x * zr0, y * zr0, z0),
                    glNormal3f (x * zr1 / radius, y * zr1 / radius, z1 / radius),
                    glVertex3f (x * zr1, y * zr1, z1)]))
             [0..<slices + 1])
         @ [glEnd])"

definition render_sphere :: "viewport \<Rightarrow> prim \<Rightarrow> gl_call list" where
  "render_sphere self p =
     (let radius = py_or (radius_attr p) 1.0;
          slices = 24; stacks = 16
      in [glPushMatrix, glMultMatrix (world_transform p),
          glColor3f (get_display_color p (0.8, 0.3, 0.3))]
         @ concat (map (sphere_strip radius slices stacks) [0..<stacks])
         @ [glPopMatrix])"

text \<open>
  The side wall shared by \<open>render_cylinder\<close> and \<open>render_capsule\<close>: a quad strip with the
  radial normal \<open>(x, 0, z)\<close>.
\<close>

definition side_wall :: "real \<Rightarrow> real \<Rightarrow> nat \<Rightarrow> gl_call list" where
  "side_wall radius half_h slices =
     [glBegin GL_QUAD_STRIP]
     @ concat (map (\<lambda>i.
           (let angle = angle_of i slices; x = cos angle; z = sin angle
            in [glNormal3f (x, 0, z),
                glVertex3f (x * radius, - half_h, z * radius),
                glVertex3f (x * radius, half_h, z * radius)]))
         [0..<slices + 1])
     @ [glEnd]"

text \<open>
  A cap: a triangle fan around \<open>(0, y, 0)\<close> with one normal; the top cap walks the ring
  upwards (\<open>range(slices + 1)\<close>), the bottom caps walk it downwards
  (\<open>range(slices, -1, -1)\<close>).
\<close>

definition cap_fan :: "real \<Rightarrow> real \<Rightarrow> vec3 \<Rightarrow> nat list \<Rightarrow> nat \<Rightarrow> gl_call list" where
  "cap_fan radius y n ring slices =
     [glBegin GL_TRIANGLE_FAN, glNormal3f n, glVertex3f (0, y, 0)]
     @ map (\<lambda>i. glVertex3f (radius * cos (angle_of i slices), y, radius * sin (angle_of i slices)))
         ring
     @ [glEnd]"

definition render_cylinder :: "viewport \<Rightarrow> prim \<Rightarrow> gl_call list" where
  "render_cylinder self p =
     (let radius = py_or (radius_attr p) 1.0;
          height = py_or (height_attr p) 2.0;
          slices = 24;
          half_h = height / 2
      in [glPushMatrix, glMultMatrix (world_transform p),
          glColor3f (get_display_color p (0.3, 0.7, 0.3))]
         @ side_wall radius half_h slices
         @ cap_fan radius half_h (0, 1, 0) [0..<slices + 1] slices
         @ cap_fan radius (- half_h) (0, - 1, 0) (rev [0..<slices + 1]) slices
         @ [glPopMatrix])"

text \<open>
  The side of \<open>render_cone\<close>: a fan from the apex; the normal of every ring vertex is passed
  to \<open>glNormal3f\<close> as it is computed.
  \<^verbatim>\<open>
    glBegin(GL_TRIANGLE_FAN)
    glVertex3f(0, half_h, 0)
    for i in range(slices + 1):
        angle = 2 * math.pi * i / slices
        x = math.cos(angle);  z = math.sin(angle)
        glNormal3f(x, radius / height, z)
        glVertex3f(x * radius, -half_h, z * radius)
    glEnd()
  \<close>
\<close>

definition cone_side :: "real \<Rightarrow> real \<Rightarrow> nat \<Rightarrow> gl_call list" where
  "cone_side radius height slices =
     [glBegin GL_TRIANGLE_FAN, glVertex3f (0, height / 2, 0)]
     @ concat (map (\<lambda>i.
           (let angle = angle_of i slices; x = cos angle; z = sin angle
            in [glNormal3f (x, radius / height, z),
                glVertex3f (x * radius, - (height / 2), z * radius)]))
         [0..<slices + 1])
     @ [glEnd]"

definition render_cone :: "viewport \<Rightarrow> prim \<Rightarrow> gl_call list" where
  "render_cone self p =
     (let radius = py_or (radius_attr p) 1.0;
          height = py_or (height_attr p) 2.0;
          slices = 24;
          half_h = height / 2
      in [glPushMatrix, glMultMatrix (world_transform p),
          glColor3f (get_display_color p (0.9, 0.7, 0.2))]
         @ cone_side radius height slices
         @ cap_fan radius (- half_h) (0, - 1, 0) (rev [0..<slices + 1]) slices
         @ [glPopMatrix])"

text \<open>
  The hemispheres of \<open>render_capsule\<close>: for \<open>sign\<close> in \<open>[1, -1]\<close>, eight latitude bands, each
  a quad strip.
  \<^verbatim>\<open>
    lat0 = (math.pi / 2) * lat_i / 8
    y0 = sign * (half_h + radius * math.sin(lat0));  r0 = radius * math.cos(lat0)
    ...
    glNormal3f(x * r0 / radius, sign * math.sin(lat0), z * r0 / radius)
    glVertex3f(x * r0, y0, z * r0)
  \<close>
\<close>

definition capsule_band :: "real \<Rightarrow> real \<Rightarrow> nat \<Rightarrow> real \<Rightarrow> nat \<Rightarrow> gl_call list" where
  "capsule_band radius half_h slices sign lat_i =
     (let lat0 = (pi / 2) * real lat_i / 8;
          lat1 = (pi / 2) * real (lat_i + 1) / 8;
          y0 = sign * (half_h + radius * sin lat0);
          r0 = radius * cos lat0;
          y1 = sign * (half_h + radius * sin lat1);
          r1 = radius * cos lat1
      in [glBegin GL_QUAD_STRIP]
         @ concat (map (\<lambda>j.
               (let angle = angle_of j slices; x = cos angle; z = sin angle
                in [glNormal3f (x * r0 / radius, sign * sin lat0, z * r0 / radius),
                    glVertex3f (x * r0, y0, z * r0),
                    glNormal3f (x * r1 / radius, sign * sin lat1, z * r1 / radius),
                    glVertex3f (x * r1, y1, z * r1)]))
             [0..<slices + 1])
         @ [glEnd])"

definition render_capsule :: "viewport \<Rightarrow> prim \<Rightarrow> gl_call list" where
  "render_capsule self p =
     (let radius = py_or (radius_attr p) 0.5;
          height = py_or (height_attr p) 2.0;
          slices = 24;
          half_h = height / 2
      in [glPushMatrix, glMultMatrix (world_transform p),
          glColor3f (get_display_color p (0.8, 0.5, 0.2))]
         @ side_wall radius half_h slices
         @ concat (map (\<lambda>sign. concat (map (capsule_band radius half_h slices sign) [0..<8]))
                    [1, - 1])
         @ [glPopMatrix])"


section \<open>Fan triangulation as the specification words it\<close>

text \<open>
  The specification's description of the triangulator, for comparison with the loops above:
  walk the faces in order, consuming \<open>count\<close> indices per face, and emit for each face the
  triangles \<open>(v0, v_i, v_{i+1})\<close> for \<open>i = 1 .. count-2\<close>.
\<close>

fun spec_faces :: "int list \<Rightarrow> 'a list \<Rightarrow> 'a list list" where
  "spec_faces [] indices = []"
| "spec_faces (count # counts) indices =
     take (nat count) indices # spec_faces counts (drop (nat count) indices)"

definition spec_fan :: "'a list \<Rightarrow> ('a \<times> 'a \<times> 'a) list" where
  "spec_fan face = map (\<lambda>i. (face ! 0, face ! i, face ! (i + 1))) [1..<length face - 1]"

text \<open>The draw calls of one triangle of vertex indices, its corners read from \<open>points\<close>.\<close>

definition position_triangle ::
  "(vec3 \<Rightarrow> vec3) \<Rightarrow> vec3 list \<Rightarrow> int \<times> int \<times> int \<Rightarrow> gl_call list" where
  "position_triangle nrm points t =
     (case t of (a, b, c) \<Rightarrow>
        triangle_calls nrm (points ! nat a) (points ! nat b) (points ! nat c))"

section \<open>Sample geometry of the basic viewer\<close>

text \<open>
  \<open>create_sample_cube\<close>: the unit cube as eight vertices and twelve triangles, its own
  colour, and the normals from \<open>compute_normals\<close>.
\<close>

definition create_sample_cube :: "py_error + mesh" where
  "create_sample_cube =
     compute_normals
       (Mesh_init
         \<lparr>vertices := [(- 0.5, - 0.5, - 0.5), (0.5, - 0.5, - 0.5),
                       (0.5, 0.5, - 0.5), (- 0.5, 0.5, - 0.5),
                       (- 0.5, - 0.5, 0.5), (0.5, - 0.5, 0.5),
                       (0.5, 0.5, 0.5), (- 0.5, 0.5, 0.5)],
          faces := [[0, 1, 2], [0, 2, 3],
                    [4, 6, 5], [4, 7, 6],
                    [0, 4, 5], [0, 5, 1],
                    [2, 6, 7], [2, 7, 3],
                    [0, 3, 7], [0, 7, 4],
                    [1, 5, 6], [1, 6, 2]],
          color := (0.3, 0.6, 0.9)\<rparr>)"

section \<open>Reading a stream of draw calls\<close>

text \<open>The colours a stream sets, in order.\<close>

fun emitted_colors :: "gl_call list \<Rightarrow> vec3 list" where
  "emitted_colors [] = []"
| "emitted_colors (glColor3f c # cs) = c # emitted_colors cs"
| "emitted_colors (_ # cs) = emitted_colors cs"



text \<open>
  How the draw surface reads a \<open>GL_QUADS\<close> batch: every vertex takes the normal that is
  current at its call, every four vertices form a quad, and a quad \<open>(a, b, c, d)\<close> is filled
  as the two triangles \<open>(a, b, c)\<close> and \<open>(a, c, d)\<close>. The first argument of
  \<open>shaded_vertices\<close> is the normal current before the stream.
\<close>

fun shaded_vertices :: "vec3 \<Rightarrow> gl_call list \<Rightarrow> (vec3 \<times> vec3) list" where
  "shaded_vertices n [] = []"
| "shaded_vertices n (glNormal3f m # cs) = shaded_vertices m cs"
| "shaded_vertices n (glVertex3f v # cs) = (n, v) # shaded_vertices n cs"
| "shaded_vertices n (_ # cs) = shaded_vertices n cs"

fun quads :: "'a list \<Rightarrow> 'a list list" where
  "quads (a # b # c # d # xs) = [a, b, c, d] # quads xs"
| "quads _ = []"

definition quad_triangles ::
  "gl_call list \<Rightarrow> ((vec3 \<times> vec3) \<times> (vec3 \<times> vec3) \<times> (vec3 \<times> vec3)) list" where
  "quad_triangles calls = concat (map spec_fan (quads (shaded_vertices (0, 0, 1) calls)))"

text \<open>The normals and the positions of the three corners of such a triangle.\<close>

fun corner_normals :: "(vec3 \<times> vec3) \<times> (vec3 \<times> vec3) \<times> (vec3 \<times> vec3) \<Rightarrow> vec3 list" where
  "corner_normals ((n0, a), (n1, b), (n2, c)) = [n0, n1, n2]"

fun corner_positions :: "(vec3 \<times> vec3) \<times> (vec3 \<times> vec3) \<times> (vec3 \<times> vec3) \<Rightarrow> vec3 list" where
  "corner_positions ((n0, a), (n1, b), (n2, c)) = [a, b, c]"

section \<open>Sample inputs\<close>

text \<open>\<open>GLViewport.__init__\<close>: shaded, lit, time code 0.\<close>

definition initial_viewport :: viewport where
  "initial_viewport = \<lparr>draw_mode_of = Shaded, enable_lighting = True, time_code = 0\<rparr>"

text \<open>A prim of a given type on which no attribute has a value.\<close>

definition bare_prim :: "prim_type \<Rightarrow> prim" where
  "bare_prim t =
     \<lparr>prim_type_of = t, points_attr = None, face_vertex_indices_attr = None,
      face_vertex_counts_attr = None, display_color_attr = None,
      size_attr = None, radius_attr = None, height_attr = None,
      world_transform = identity4\<rparr>"

text \<open>A Mesh prim with one triangle whose three points lie on a line.\<close>

definition collinear_prim :: prim where
  "collinear_prim =
     (bare_prim Mesh)
       \<lparr>points_attr := Some [(0, 0, 0), (1, 0, 0), (2, 0, 0)],
        face_vertex_indices_attr := Some [0, 1, 2],
        face_vertex_counts_attr := Some [3]\<rparr>"

text \<open>The quad of the specification's end-to-end example, without a display colour.\<close>

definition quad_prim :: prim where
  "quad_prim =
     (bare_prim Mesh)
       \<lparr>points_attr := Some [(0, 0, 0), (1, 0, 0), (1, 1, 0), (0, 1, 0)],
        face_vertex_indices_attr := Some [0, 1, 2, 3],
        face_vertex_counts_attr := Some [4]\<rparr>"

section \<open>Camera: framing\<close>

text \<open>
  C5. \<open>frame_bounds(min, max)\<close> sets the target to the midpoint of the two corners and the
  distance to twice the largest axis extent, or to the fixed distance 10 when that extent
  is zero or negative; the other camera fields are untouched. On the sample scene's bounds
  \<open>[-5,0,-5]\<close>, \<open>[5,3,5]\<close> the target is \<open>(0, 1.5, 0)\<close> and the distance 20.
\<close>

theorem frame_bounds_spec:
  "target (frame_bounds c (x0, y0, z0) (x1, y1, z1))
     = ((x0 + x1) / 2, (y0 + y1) / 2, (z0 + z1) / 2)
   \<and> distance (frame_bounds c (x0, y0, z0) (x1, y1, z1))
     = (if max (x1 - x0) (max (y1 - y0) (z1 - z0)) > 0
        then 2 * max (x1 - x0) (max (y1 - y0) (z1 - z0)) else 10)
   \<and> azimuth (frame_bounds c (x0, y0, z0) (x1, y1, z1)) = azimuth c
   \<and> elevation (frame_bounds c (x0, y0, z0) (x1, y1, z1)) = elevation c
   \<and> target (frame_bounds c (- 5, 0, - 5) (5, 3, 5)) = (0, 1.5, 0)
   \<and> distance (frame_bounds c (- 5, 0, - 5) (5, 3, 5)) = 20"
  by (simp add: frame_bounds_def Let_def)

section \<open>Camera: elevation clamp\<close>

lemma basic_rotate_elevation:
  "- 89 \<le> elevation (basic_rotate c dx dy) \<and> elevation (basic_rotate c dx dy) \<le> 89"
  by (simp add: basic_rotate_def)

lemma rotate_elevation:
  "- 89 \<le> elevation (hydra_rotate c dx dy) \<and> elevation (hydra_rotate c dx dy) \<le> 89"
  by (simp add: hydra_rotate_def)

lemma basic_rotate_all_elevation:
  "- 89 \<le> elevation c \<and> elevation c \<le> 89 \<Longrightarrow>
   - 89 \<le> elevation (basic_rotate_all c ds) \<and> elevation (basic_rotate_all c ds) \<le> 89"
proof (induction ds arbitrary: c)
  case Nil
  then show ?case by simp
next
  case (Cons d ds)
  obtain dx dy where d: "d = (dx, dy)" by (cases d)
  show ?case
    unfolding d basic_rotate_all.simps
    by (rule Cons.IH) (rule basic_rotate_elevation)
qed

lemma rotate_all_elevation:
  "- 89 \<le> elevation c \<and> elevation c \<le> 89 \<Longrightarrow>
   - 89 \<le> elevation (hydra_rotate_all c ds) \<and> elevation (hydra_rotate_all c ds) \<le> 89"
proof (induction ds arbitrary: c)
  case Nil
  then show ?case by simp
next
  case (Cons d ds)
  obtain dx dy where d: "d = (dx, dy)" by (cases d)
  show ?case
    unfolding d hydra_rotate_all.simps
    by (rule Cons.IH) (rule rotate_elevation)
qed

lemma basic_rotate_up_1000:
  "- 89 \<le> elevation c \<Longrightarrow> elevation (basic_rotate c 0 1000) = 89"
  by (simp add: basic_rotate_def)

lemma rotate_up_1000:
  "- 89 \<le> elevation c \<Longrightarrow> elevation (hydra_rotate c 0 1000) = 89"
  by (simp add: hydra_rotate_def)

lemma basic_rotate_up_repeat:
  "- 89 \<le> elevation c \<Longrightarrow> elevation (((\<lambda>s. basic_rotate s 0 1000) ^^ Suc n) c) = 89"
proof (induction n)
  case 0
  then show ?case by (simp add: basic_rotate_up_1000)
next
  case (Suc n)
  then have "elevation (((\<lambda>s. basic_rotate s 0 1000) ^^ Suc n) c) = 89" by simp
  then have "- 89 \<le> elevation (((\<lambda>s. basic_rotate s 0 1000) ^^ Suc n) c)" by simp
  then have "elevation (basic_rotate (((\<lambda>s. basic_rotate s 0 1000) ^^ Suc n) c) 0 1000) = 89"
    by (rule basic_rotate_up_1000)
  then show ?case by simp
qed

lemma rotate_up_repeat:
  "- 89 \<le> elevation c \<Longrightarrow> elevation (((\<lambda>s. hydra_rotate s 0 1000) ^^ Suc n) c) = 89"
proof (induction n)
  case 0
  then show ?case by (simp add: rotate_up_1000)
next
  case (Suc n)
  then have "elevation (((\<lambda>s. hydra_rotate s 0 1000) ^^ Suc n) c) = 89" by simp
  then have "- 89 \<le> elevation (((\<lambda>s. hydra_rotate s 0 1000) ^^ Suc n) c)" by simp
  then have "elevation (hydra_rotate (((\<lambda>s. hydra_rotate s 0 1000) ^^ Suc n) c) 0 1000) = 89"
    by (rule rotate_up_1000)
  then show ?case by simp
qed

text \<open>
  C6. Starting from an elevation in \<open>[-89, 89]\<close>, any sequence of \<open>rotate(dx, dy)\<close> calls
  leaves the elevation in \<open>[-89, 89]\<close>, so it is never \<open>90\<close> or \<open>-90\<close>; one
  \<open>rotate(0, 1000)\<close>, and every further repetition of it, leaves the elevation at exactly
  89. This holds for the camera of the basic viewer and for the camera of the two Hydra
  viewers.
\<close>

theorem rotate_elevation_clamped:
  assumes "- 89 \<le> elevation c" and "elevation c \<le> 89"
  shows "- 89 \<le> elevation (hydra_rotate_all c ds) \<and> elevation (hydra_rotate_all c ds) \<le> 89
       \<and> elevation (hydra_rotate_all c ds) \<noteq> 90 \<and> elevation (hydra_rotate_all c ds) \<noteq> - 90
       \<and> - 89 \<le> elevation (basic_rotate_all c ds) \<and> elevation (basic_rotate_all c ds) \<le> 89
       \<and> elevation (basic_rotate_all c ds) \<noteq> 90 \<and> elevation (basic_rotate_all c ds) \<noteq> - 90
       \<and> elevation (hydra_rotate c 0 1000) = 89
       \<and> elevation (basic_rotate c 0 1000) = 89
       \<and> elevation (((\<lambda>s. hydra_rotate s 0 1000) ^^ Suc n) c) = 89
       \<and> elevation (((\<lambda>s. basic_rotate s 0 1000) ^^ Suc n) c) = 89"
proof -
  from assms have a: "- 89 \<le> elevation c \<and> elevation c \<le> 89" by simp
  have r: "- 89 \<le> elevation (hydra_rotate_all c ds) \<and> elevation (hydra_rotate_all c ds) \<le> 89"
    using a by (rule rotate_all_elevation)
  have b: "- 89 \<le> elevation (basic_rotate_all c ds) \<and> elevation (basic_rotate_all c ds) \<le> 89"
    using a by (rule basic_rotate_all_elevation)
  have r': "elevation (hydra_rotate_all c ds) \<noteq> 90 \<and> elevation (hydra_rotate_all c ds) \<noteq> - 90"
    using r by auto
  have b': "elevation (basic_rotate_all c ds) \<noteq> 90 \<and> elevation (basic_rotate_all c ds) \<noteq> - 90"
    using b by auto
  show ?thesis
    using r b r' b' rotate_up_1000 [OF assms(1)] basic_rotate_up_1000 [OF assms(1)]
      rotate_up_repeat [OF assms(1), of n] basic_rotate_up_repeat [OF assms(1), of n]
    by blast
qed

theorem rotate_elevation_clamped_witness:
  "elevation (hydra_rotate_all \<lparr>distance = 10, azimuth = 45, elevation = 30, target = (0, 0, 0)\<rparr>
      [(0, 1000), (5, - 2000), (0, 1000)]) = 89
   \<and> elevation (basic_rotate_all \<lparr>distance = 5, azimuth = 45, elevation = 30, target = (0, 0, 0)\<rparr>
      [(0, 1000), (5, - 2000)]) = - 89
   \<and> elevation (hydra_rotate \<lparr>distance = 10, azimuth = 45, elevation = 30, target = (0, 0, 0)\<rparr> 0 1000) = 89"
  using rotate_elevation_clamped
    [of "\<lparr>distance = 10, azimuth = 45, elevation = 30, target = (0, 0, 0)\<rparr>" "[]" 0]
  by (simp add: hydra_rotate_def basic_rotate_def)

section \<open>Fan triangulation\<close>

lemma collect_face_take:
  "idx + n \<le> length indices \<Longrightarrow>
   collect_face indices n idx = (take n (drop idx indices), idx + n)"
proof (induction n arbitrary: idx)
  case 0
  then show ?case by simp
next
  case (Suc n)
  then have lt: "idx < length indices" and le: "Suc idx + n \<le> length indices" by simp_all
  have "collect_face indices n (Suc idx) = (take n (drop (Suc idx) indices), Suc idx + n)"
    using le by (rule Suc.IH)
  moreover have "take (Suc n) (drop idx indices) = indices ! idx # take n (drop (Suc idx) indices)"
    using lt by (simp add: Cons_nth_drop_Suc [symmetric])
  ultimately show ?case using lt by simp
qed

lemma fan_spec_fan: "fan face = map (\<lambda>(a, b, c). [a, b, c]) (spec_fan face)"
  by (simp add: fan_def spec_fan_def)

lemma length_spec_fan: "length (spec_fan face) = length face - 2"
  by (simp add: spec_fan_def)

lemma extract_faces_spec:
  "idx + sum_list (map nat counts) \<le> length indices \<Longrightarrow>
   extract_faces indices counts idx
     = map (\<lambda>(a, b, c). [a, b, c]) (concat (map spec_fan (spec_faces counts (drop idx indices))))"
proof (induction counts arbitrary: idx)
  case Nil
  then show ?case by simp
next
  case (Cons count counts)
  then have a: "idx + nat count \<le> length indices"
    and b: "(idx + nat count) + sum_list (map nat counts) \<le> length indices" by simp_all
  have ih: "extract_faces indices counts (idx + nat count)
     = map (\<lambda>(a, b, c). [a, b, c])
         (concat (map spec_fan (spec_faces counts (drop (idx + nat count) indices))))"
    using b by (rule Cons.IH)
  show ?case
    by (simp add: collect_face_take [OF a] ih fan_spec_fan add.commute)
qed

lemma length_spec_faces:
  "sum_list (map nat counts) \<le> length indices \<Longrightarrow>
   map length (spec_faces counts indices) = map nat counts"
proof (induction counts arbitrary: indices)
  case Nil
  then show ?case by simp
next
  case (Cons count counts)
  then show ?case by simp
qed


lemma for_each_all_ok:
  "(\<And>x. x \<in> set xs \<Longrightarrow> body x = Inr (g x)) \<Longrightarrow> for_each body xs = Inr (concat (map g xs))"
  by (induction xs) simp_all

lemma fetch_ok:
  assumes "0 \<le> k" and "k < int (length indices)"
    and "\<forall>a\<in>set indices. 0 \<le> a \<and> a < int (length points)"
  shows "fetch points indices k = Inr (points ! nat (indices ! nat k))"
proof -
  have "indices ! nat k \<in> set indices" using assms(1,2) by simp
  then have "0 \<le> indices ! nat k \<and> indices ! nat k < int (length points)"
    using assms(3) by blast
  then show ?thesis using assms(1,2) by (simp add: fetch_def py_index_def)
qed

lemma upto_as_upt: "[1..c - 2] = map int [1..<nat c - 1]"
proof (rule nth_equalityI)
  show "length [1..c - 2] = length (map int [1..<nat c - 1])" by auto
next
  fix i assume "i < length [1..c - 2]"
  then have i: "int i < c - 2" by simp
  then have "1 + int i \<le> c - 2" by simp
  then have "[1..c - 2] ! i = 1 + int i" by (rule nth_upto)
  moreover have "i < length [1..<nat c - 1]" using i by auto
  then have "map int [1..<nat c - 1] ! i = int (1 + i)" by simp
  ultimately show "[1..c - 2] ! i = map int [1..<nat c - 1] ! i" by simp
qed

lemma face_triangles:
  assumes c: "3 \<le> count" and len: "n + nat count \<le> length indices"
    and valid: "\<forall>a\<in>set indices. 0 \<le> a \<and> a < int (length points)"
  shows "for_each (emit_triangle nrm points indices (int n) (points ! nat (indices ! n)))
           [1..count - 2]
         = Inr (concat (map (position_triangle nrm points)
                  (spec_fan (take (nat count) (drop n indices)))))"
proof -
  let ?face = "take (nat count) (drop n indices)"
  let ?g = "\<lambda>i. position_triangle nrm points
                  (indices ! n, indices ! (n + nat i), indices ! (n + nat i + 1))"
  have body: "emit_triangle nrm points indices (int n) (points ! nat (indices ! n)) i = Inr (?g i)"
    if "i \<in> set [1..count - 2]" for i
  proof -
    from that have i: "1 \<le> i" "i \<le> count - 2" by simp_all
    have f1: "fetch points indices (int n + i) = Inr (points ! nat (indices ! nat (int n + i)))"
      using i len by (intro fetch_ok valid) auto
    have f2: "fetch points indices (int n + i + 1)
              = Inr (points ! nat (indices ! nat (int n + i + 1)))"
      using i len by (intro fetch_ok valid) auto
    have n1: "nat (int n + i) = n + nat i" using i by (simp add: nat_add_distrib)
    have n2: "nat (int n + i + 1) = n + nat i + 1" using i by (simp add: nat_add_distrib)
    show ?thesis
      by (simp add: emit_triangle_def f1 f2 n1 n2 position_triangle_def)
  qed
  have lf: "length ?face = nat count" using len by simp
  have fan: "spec_fan ?face
    = map (\<lambda>i. (indices ! n, indices ! (n + i), indices ! (n + i + 1))) [1..<nat count - 1]"
    unfolding spec_fan_def lf using c len by (auto simp: add.commute)
  have "for_each (emit_triangle nrm points indices (int n) (points ! nat (indices ! n)))
           [1..count - 2] = Inr (concat (map ?g [1..count - 2]))"
    using body by (rule for_each_all_ok)
  also have "map ?g [1..count - 2]
     = map (position_triangle nrm points) (spec_fan ?face)"
    by (simp add: upto_as_upt fan comp_def)
  finally show ?thesis .
qed

lemma spec_fan_short: "length face < 3 \<Longrightarrow> spec_fan face = []"
  by (simp add: spec_fan_def)

lemma triangulate_spec:
  assumes nonneg: "\<forall>c\<in>set counts. 0 \<le> c"
    and len: "n + sum_list (map nat counts) \<le> length indices"
    and valid: "\<forall>a\<in>set indices. 0 \<le> a \<and> a < int (length points)"
  shows "triangulate nrm points indices counts (int n)
         = Inr (concat (map (position_triangle nrm points)
                  (concat (map spec_fan (spec_faces counts (drop n indices))))))"
  using nonneg len
proof (induction counts arbitrary: n)
  case Nil
  then show ?case by simp
next
  case (Cons count counts)
  then have c0: "0 \<le> count" and rest: "\<forall>c\<in>set counts. 0 \<le> c"
    and a: "n + nat count \<le> length indices"
    and b: "(n + nat count) + sum_list (map nat counts) \<le> length indices" by simp_all
  have idx: "int n + count = int (n + nat count)" using c0 by simp
  have ih: "triangulate nrm points indices counts (int n + count)
     = Inr (concat (map (position_triangle nrm points)
              (concat (map spec_fan (spec_faces counts (drop (n + nat count) indices))))))"
    unfolding idx using rest b by (rule Cons.IH)
  have dr: "drop (nat count + n) indices = drop (n + nat count) indices"
    by (simp add: add.commute)
  show ?case
  proof (cases "3 \<le> count")
    case True
    have v0: "fetch points indices (int n) = Inr (points ! nat (indices ! n))"
      using fetch_ok [of "int n" indices points] True a valid by simp
    show ?thesis
      using True by (simp add: v0 face_triangles [OF True a valid] ih dr)
  next
    case False
    then have "length (take (nat count) (drop n indices)) < 3" by simp
    then have "spec_fan (take (nat count) (drop n indices)) = []" by (rule spec_fan_short)
    then show ?thesis using False by (simp add: ih dr)
  qed
qed

lemma sum_list_nat_counts:
  "\<forall>c\<in>set counts. 0 \<le> c \<Longrightarrow> int (sum_list (map nat counts)) = sum_list counts"
  by (induction counts) simp_all

lemma spec_fan_counts:
  "sum_list (map nat counts) \<le> length indices \<Longrightarrow>
   map (length \<circ> spec_fan) (spec_faces counts indices) = map (\<lambda>c. nat (max (c - 2) 0)) counts"
proof (induction counts arbitrary: indices)
  case Nil
  then show ?case by simp
next
  case (Cons count counts)
  then show ?case by (auto simp: length_spec_fan)
qed

text \<open>
  C1. Under the triangulator's contract (counts not negative, the counts consume no more
  indices than there are, and every index names a point), both triangulation loops emit,
  face by face and in order, the fan \<open>(v0, v_i, v_{i+1})\<close>, \<open>i = 1 .. count-2\<close>, anchored at the
  face's first vertex: the basic viewer as index triples, the PyQt6 viewer as the draw calls
  of the same triples. Each face holds \<open>count\<close> indices and yields exactly
  \<open>max(count - 2, 0)\<close> triangles, so a face with fewer than three indices yields none.
\<close>

theorem fan_triangulation:
  assumes nonneg: "\<forall>c\<in>set counts. 0 \<le> c"
    and len: "sum_list counts \<le> int (length indices)"
    and valid: "\<forall>a\<in>set indices. 0 \<le> a \<and> a < int (length points)"
  shows "extract_faces indices counts 0
           = map (\<lambda>(a, b, c). [a, b, c]) (concat (map spec_fan (spec_faces counts indices)))
       \<and> triangulate nrm points indices counts 0
           = Inr (concat (map (position_triangle nrm points)
                    (concat (map spec_fan (spec_faces counts indices)))))
       \<and> map length (spec_faces counts indices) = map nat counts
       \<and> map (length \<circ> spec_fan) (spec_faces counts indices)
           = map (\<lambda>c. nat (max (c - 2) 0)) counts"
proof -
  have l: "sum_list (map nat counts) \<le> length indices"
    using sum_list_nat_counts [OF nonneg] len by linarith
  then have l0: "0 + sum_list (map nat counts) \<le> length indices" by simp
  have a: "extract_faces indices counts 0
           = map (\<lambda>(a, b, c). [a, b, c]) (concat (map spec_fan (spec_faces counts indices)))"
    using extract_faces_spec [OF l0] by simp
  have b: "triangulate nrm points indices counts 0
           = Inr (concat (map (position_triangle nrm points)
                    (concat (map spec_fan (spec_faces counts indices)))))"
    using triangulate_spec [OF nonneg l0 valid, of nrm] by simp
  show ?thesis
    using a b length_spec_faces [OF l] spec_fan_counts [OF l] by blast
qed

theorem fan_triangulation_witness:
  "sum_list [4::int] \<le> int (length [0, 1, 2, 3 :: int])
   \<and> extract_faces [0, 1, 2, 3] [4] 0 = [[0, 1, 2], [0, 2, 3]]
   \<and> triangulate normalize_or_up [(0, 0, 0), (1, 0, 0), (1, 1, 0), (0, 1, 0)] [0, 1, 2, 3] [4] 0
       = Inr [glNormal3f (0, 0, 1), glVertex3f (0, 0, 0), glVertex3f (1, 0, 0), glVertex3f (1, 1, 0),
              glNormal3f (0, 0, 1), glVertex3f (0, 0, 0), glVertex3f (1, 1, 0), glVertex3f (0, 1, 0)]"
  using fan_triangulation [of "[4]" "[0, 1, 2, 3]"
      "[(0, 0, 0), (1, 0, 0), (1, 1, 0), (0, 1, 0)]" normalize_or_up]
  by (simp add: spec_fan_def position_triangle_def triangle_calls_def normalize_or_up_def
      cross_def sub3_def)

section \<open>Degenerate triangles\<close>

lemma mag2_zero: "mag2 n = 0 \<Longrightarrow> n = (0, 0, 0)"
proof -
  obtain x y z where n: "n = (x, y, z)" by (cases n)
  assume "mag2 n = 0"
  then have s: "x * x + y * y + z * z = 0" by (simp add: n)
  have "0 \<le> x * x" "0 \<le> y * y" "0 \<le> z * z" by simp_all
  with s have "x * x = 0" "y * y = 0" "z * z = 0" by linarith+
  then show ?thesis by (simp add: n)
qed

lemma normalize_or_up_degenerate: "mag2 n = 0 \<Longrightarrow> normalize_or_up n = (0, 1, 0)"
  by (simp add: normalize_or_up_def)

lemma normalize_simple_degenerate: "mag2 n = 0 \<Longrightarrow> normalize_simple n = (0, 0, 0)"
  using mag2_zero [of n] by (simp add: normalize_simple_def)

text \<open>In \<open>render_mesh_simple\<close> every degenerate triangle is drawn with the zero normal.\<close>

lemma emit_triangle_simple_degenerate:
  assumes "emit_triangle normalize_simple points indices idx v0 i = Inr calls"
    and "fetch points indices (idx + i) = Inr v1" and "fetch points indices (idx + i + 1) = Inr v2"
    and "mag2 (cross (sub3 v1 v0) (sub3 v2 v0)) = 0"
  shows "calls = [glNormal3f (0, 0, 0), glVertex3f v0, glVertex3f v1, glVertex3f v2]"
  using assms by (simp add: emit_triangle_def triangle_calls_def normalize_simple_degenerate)

text \<open>
  C3. A triangle whose edge cross product has zero length gets the up vector \<open>(0, 1, 0)\<close> as
  its normal in \<open>Mesh.compute_normals\<close> and in \<open>GLViewport.render_mesh\<close>, but not in
  \<open>HydraViewport.render_mesh_simple\<close>: there the zero vector is passed to \<open>glNormal3f\<close>.
  On a mesh of three collinear points \<open>render_mesh_simple\<close> draws the normal \<open>(0, 0, 0)\<close>
  where the other two give \<open>(0, 1, 0)\<close>.
\<close>

theorem render_mesh_simple_zero_normal:
  "render_mesh_simple self collinear_prim
     = Inr [glPushMatrix, glMultMatrix identity4, glColor3f (0.7, 0.7, 0.8),
            glBegin GL_TRIANGLES,
            glNormal3f (0, 0, 0), glVertex3f (0, 0, 0), glVertex3f (1, 0, 0), glVertex3f (2, 0, 0),
            glEnd, glPopMatrix]
   \<and> (\<exists>calls. render_mesh self collinear_prim = Inr calls \<and> glNormal3f (0, 1, 0) \<in> set calls)
   \<and> (\<exists>m. extract_mesh_from_prim collinear_prim = Inr m \<and> normals m = [(0, 1, 0)])"
  by (simp add: render_mesh_simple_def render_mesh_def extract_mesh_from_prim_def collinear_prim_def
      bare_prim_def compute_normals_def Mesh_init_def fan_def eval_nat_numeral
      fetch_def py_index_def emit_triangle_def triangle_calls_def
      normalize_simple_def normalize_or_up_def cross_def sub3_def)

section \<open>Magnitude of the emitted normals\<close>

lemma cos_sin_unit: "cos a * cos a + sin a * sin a = (1::real)"
  using sin_cos_squared_add2 [of a] by (simp add: power2_eq_square)

lemma unit_product:
  fixes x y c s :: real
  assumes "x * x + y * y = 1" and "c * c + s * s = 1"
  shows "(x * c) * (x * c) + s * s + (y * c) * (y * c) = 1"
proof -
  have "(x * c) * (x * c) + s * s + (y * c) * (y * c) = (x * x + y * y) * (c * c) + s * s"
    by (simp add: algebra_simps)
  then show ?thesis using assms by simp
qed

text \<open>
  The normal of \<open>compute_normals\<close> and \<open>GLViewport.render_mesh\<close> is a unit vector, the
  fallback \<open>(0, 1, 0)\<close> included.
\<close>

lemma normalize_or_up_unit: "mag2 (normalize_or_up n) = 1"
proof (cases "sqrt (mag2 n) > 0")
  case True
  obtain x y z where n: "n = (x, y, z)" by (cases n)
  let ?l = "sqrt (mag2 n)"
  have m: "0 < mag2 n" using True by simp
  then have sq: "?l * ?l = mag2 n" by simp
  have "normalize_or_up n = (x / ?l, y / ?l, z / ?l)"
    using True by (simp add: normalize_or_up_def n Let_def)
  then have "mag2 (normalize_or_up n) = (x * x + y * y + z * z) / (?l * ?l)"
    by (simp add: add_divide_distrib)
  also have "\<dots> = mag2 n / mag2 n" unfolding sq by (simp add: n)
  also have "\<dots> = 1" using m by simp
  finally show ?thesis .
next
  case False
  then show ?thesis by (simp add: normalize_or_up_def)
qed

text \<open>The sphere, the side walls and the capsule's hemispheres emit unit normals.\<close>

lemma sphere_strip_normals:
  assumes "glNormal3f n \<in> set (sphere_strip radius slices stacks i)" and "radius \<noteq> 0"
  shows "mag2 n = 1"
proof -
  from assms(1) obtain a b where n: "n = (cos a * (radius * cos b) / radius,
                                      sin a * (radius * cos b) / radius,
                                      radius * sin b / radius)"
    by (auto simp: sphere_strip_def Let_def)
  have "mag2 n = (cos a * cos b) * (cos a * cos b) + (sin a * cos b) * (sin a * cos b)
                 + sin b * sin b"
    unfolding n using assms(2) by simp
  also have "\<dots> = 1"
    using unit_product [OF cos_sin_unit [of a] cos_sin_unit [of b]] by (simp add: algebra_simps)
  finally show ?thesis .
qed

lemma side_wall_normals:
  "glNormal3f n \<in> set (side_wall radius half_h slices) \<Longrightarrow> mag2 n = 1"
  by (auto simp: side_wall_def Let_def cos_sin_unit)

lemma capsule_band_normals:
  assumes "glNormal3f n \<in> set (capsule_band radius half_h slices sign lat_i)"
    and "radius \<noteq> 0" and "sign * sign = 1"
  shows "mag2 n = 1"
proof -
  from assms(1) obtain a b where n: "n = (cos a * (radius * cos b) / radius,
                                      sign * sin b,
                                      sin a * (radius * cos b) / radius)"
    by (auto simp: capsule_band_def Let_def)
  have "mag2 n = (cos a * cos b) * (cos a * cos b) + (sign * sign) * (sin b * sin b)
                  + (sin a * cos b) * (sin a * cos b)"
    unfolding n using assms(2) by (simp add: algebra_simps)
  also have "\<dots> = 1"
    using unit_product [OF cos_sin_unit [of a] cos_sin_unit [of b]] assms(3)
    by (simp add: algebra_simps)
  finally show ?thesis .
qed

text \<open>
  The cone's side normals are not: \<open>x\<close> and \<open>z\<close> already have \<open>x\<^sup>2 + z\<^sup>2 = 1\<close>, and the
  parameters are never zero after \<open>or\<close>, so every side normal is longer than 1.
\<close>

lemma py_or_nonzero: "d \<noteq> 0 \<Longrightarrow> py_or v d \<noteq> 0"
  by (simp add: py_or_def split: option.splits)

lemma cone_side_normals:
  "glNormal3f n \<in> set (cone_side radius height slices) \<Longrightarrow>
   mag2 n = 1 + (radius / height) * (radius / height)"
proof -
  assume "glNormal3f n \<in> set (cone_side radius height slices)"
  then obtain i where n: "n = (cos (angle_of i slices), radius / height, sin (angle_of i slices))"
    by (auto simp: cone_side_def Let_def)
  have "cos (angle_of i slices) * cos (angle_of i slices)
        + sin (angle_of i slices) * sin (angle_of i slices) = 1"
    using sin_cos_squared_add2 [of "angle_of i slices"] by (simp add: power2_eq_square)
  then show ?thesis unfolding n by simp
qed

lemma render_cone_side_never_unit:
  assumes "glNormal3f n \<in> set (cone_side (py_or (radius_attr p) 1.0) (py_or (height_attr p) 2.0) 24)"
  shows "1 < mag2 n"
proof -
  let ?q = "py_or (radius_attr p) 1.0 / py_or (height_attr p) 2.0"
  have "?q \<noteq> 0" by (simp add: py_or_nonzero)
  then have "0 < ?q * ?q" using not_real_square_gt_zero [of ?q] by blast
  then show ?thesis using cone_side_normals [OF assms] by simp
qed

text \<open>
  C2. Every emitted normal should have magnitude 1 (or be the fallback of a degenerate
  triangle), the cone's side-wall normal \<open>(x, radius/height, z)\<close> in particular being
  normalised before it is emitted. \<open>render_cone\<close> emits it as computed: on a Cone prim
  without parameters (radius 1, height 2) the first side normal is \<open>(1, 1/2, 0)\<close>, of squared
  length \<open>5/4\<close>.
\<close>

theorem cone_side_normal_not_unit:
  "render_cone self (bare_prim Cone) ! 5 = glNormal3f (1, 1 / 2, 0)
   \<and> mag2 (1, 1 / 2, 0) = 5 / 4
   \<and> mag2 (1, 1 / 2, 0) \<noteq> 1"
  by (simp add: render_cone_def bare_prim_def py_or_def cone_side_def angle_of_def Let_def
      upt_rec [of 0])

section \<open>Cube\<close>

text \<open>
  C4. A Cube prim of size 2 is drawn as six quads, that is twelve triangles, two per face;
  the three corners of both triangles of a face carry that face's constant-axis normal, and
  the corners are those of the cube \<open>[-1, 1]\<^sup>3\<close>. The sample cube of the basic viewer has
  twelve triangles too, and the computed normals of the two triangles of each face agree.
\<close>

theorem cube_twelve_triangles:
  "length (quad_triangles (render_cube self (p\<lparr>size_attr := Some 2\<rparr>))) = 12
   \<and> map corner_normals (quad_triangles (render_cube self (p\<lparr>size_attr := Some 2\<rparr>)))
       = concat (map (\<lambda>n. [[n, n, n], [n, n, n]])
           [(0, 0, - 1), (0, 0, 1), (- 1, 0, 0), (1, 0, 0), (0, - 1, 0), (0, 1, 0)])
   \<and> map corner_positions (quad_triangles (render_cube self (p\<lparr>size_attr := Some 2\<rparr>)))
       = [[(- 1, - 1, - 1), (1, - 1, - 1), (1, 1, - 1)], [(- 1, - 1, - 1), (1, 1, - 1), (- 1, 1, - 1)],
          [(- 1, - 1, 1), (- 1, 1, 1), (1, 1, 1)], [(- 1, - 1, 1), (1, 1, 1), (1, - 1, 1)],
          [(- 1, - 1, - 1), (- 1, 1, - 1), (- 1, 1, 1)], [(- 1, - 1, - 1), (- 1, 1, 1), (- 1, - 1, 1)],
          [(1, - 1, - 1), (1, - 1, 1), (1, 1, 1)], [(1, - 1, - 1), (1, 1, 1), (1, 1, - 1)],
          [(- 1, - 1, - 1), (- 1, - 1, 1), (1, - 1, 1)], [(- 1, - 1, - 1), (1, - 1, 1), (1, - 1, - 1)],
          [(- 1, 1, - 1), (1, 1, - 1), (1, 1, 1)], [(- 1, 1, - 1), (1, 1, 1), (- 1, 1, 1)]]
   \<and> map_sum id (\<lambda>m. (length (faces m), normals m)) create_sample_cube
       = Inr (12, concat (map (\<lambda>n. [n, n])
           [(0, 0, 1), (0, 0, - 1), (0, 1, 0), (0, - 1, 0), (1, 0, 0), (- 1, 0, 0)]))"
  by (simp add: render_cube_def quad_triangles_def py_or_def cube_faces_def cube_vertices_def
      spec_fan_def create_sample_cube_def compute_normals_def Mesh_init_def py_index_def
      normalize_or_up_def cross_def sub3_def)

section \<open>Defaults of the shape parameters\<close>

text \<open>
  C7, as claimed: every primitive without shape parameters is tessellated with radius 1.0
  and height 2.0. The capsule is not: without parameters its first side-wall vertex is
  \<open>(1/2, -1, 0)\<close>, with radius 1.0 and height 2.0 it is \<open>(1, -1, 0)\<close>.
\<close>

theorem capsule_default_radius_counterexample:
  "render_capsule initial_viewport (bare_prim Capsule) ! 5 = glVertex3f (1 / 2, - 1, 0)
   \<and> render_capsule initial_viewport
        ((bare_prim Capsule)\<lparr>radius_attr := Some 1.0, height_attr := Some 2.0\<rparr>) ! 5
       = glVertex3f (1, - 1, 0)
   \<and> render_capsule initial_viewport (bare_prim Capsule)
       \<noteq> render_capsule initial_viewport
           ((bare_prim Capsule)\<lparr>radius_attr := Some 1.0, height_attr := Some 2.0\<rparr>)"
proof -
  have a: "render_capsule initial_viewport (bare_prim Capsule) ! 5 = glVertex3f (1 / 2, - 1, 0)"
    by (simp add: render_capsule_def bare_prim_def py_or_def side_wall_def angle_of_def Let_def
        upt_rec [of 0])
  have b: "render_capsule initial_viewport
        ((bare_prim Capsule)\<lparr>radius_attr := Some 1.0, height_attr := Some 2.0\<rparr>) ! 5
       = glVertex3f (1, - 1, 0)"
    by (simp add: render_capsule_def bare_prim_def py_or_def side_wall_def angle_of_def Let_def
        upt_rec [of 0])
  have "render_capsule initial_viewport (bare_prim Capsule) ! 5
       \<noteq> render_capsule initial_viewport
           ((bare_prim Capsule)\<lparr>radius_attr := Some 1.0, height_attr := Some 2.0\<rparr>) ! 5"
    unfolding a b by simp
  then have c: "render_capsule initial_viewport (bare_prim Capsule)
       \<noteq> render_capsule initial_viewport
           ((bare_prim Capsule)\<lparr>radius_attr := Some 1.0, height_attr := Some 2.0\<rparr>)"
    by metis
  show ?thesis using a b c by blast
qed

text \<open>
  C7, amended. A prim whose shape parameter has no value is tessellated exactly as with the
  default of its type: size 1.0 for the cube; radius 1.0 for sphere, cylinder and cone and
  0.5 for the capsule; height 2.0 for cylinder, cone and capsule.
\<close>

theorem shape_defaults:
  "render_cube self (p\<lparr>size_attr := None\<rparr>) = render_cube self (p\<lparr>size_attr := Some 1.0\<rparr>)
   \<and> render_sphere self (p\<lparr>radius_attr := None\<rparr>) = render_sphere self (p\<lparr>radius_attr := Some 1.0\<rparr>)
   \<and> render_cylinder self (p\<lparr>radius_attr := None\<rparr>)
       = render_cylinder self (p\<lparr>radius_attr := Some 1.0\<rparr>)
   \<and> render_cylinder self (p\<lparr>height_attr := None\<rparr>)
       = render_cylinder self (p\<lparr>height_attr := Some 2.0\<rparr>)
   \<and> render_cone self (p\<lparr>radius_attr := None\<rparr>) = render_cone self (p\<lparr>radius_attr := Some 1.0\<rparr>)
   \<and> render_cone self (p\<lparr>height_attr := None\<rparr>) = render_cone self (p\<lparr>height_attr := Some 2.0\<rparr>)
   \<and> render_capsule self (p\<lparr>radius_attr := None\<rparr>)
       = render_capsule self (p\<lparr>radius_attr := Some 0.5\<rparr>)
   \<and> render_capsule self (p\<lparr>height_attr := None\<rparr>)
       = render_capsule self (p\<lparr>height_attr := Some 2.0\<rparr>)"
  by (simp add: render_cube_def render_sphere_def render_cylinder_def render_cone_def
      render_capsule_def py_or_def get_display_color_def)

section \<open>Fallback colours\<close>

lemma emitted_colors_append:
  "emitted_colors (xs @ ys) = emitted_colors xs @ emitted_colors ys"
  by (induction xs rule: emitted_colors.induct) simp_all

lemma emitted_colors_concat:
  "(\<And>x. x \<in> set xs \<Longrightarrow> emitted_colors (f x) = []) \<Longrightarrow> emitted_colors (concat (map f xs)) = []"
  by (induction xs) (simp_all add: emitted_colors_append)

lemma emitted_colors_map_vertex: "emitted_colors (map (\<lambda>i. glVertex3f (f i)) xs) = []"
  by (induction xs) simp_all

lemma for_each_no_colors:
  "(\<And>x ys. body x = Inr ys \<Longrightarrow> emitted_colors ys = []) \<Longrightarrow>
   for_each body xs = Inr zs \<Longrightarrow> emitted_colors zs = []"
proof (induction xs arbitrary: zs)
  case Nil
  then show ?case by simp
next
  case (Cons x xs)
  from Cons.prems(2) obtain ys ws where ys: "body x = Inr ys" and ws: "for_each body xs = Inr ws"
    and zs: "zs = ys @ ws"
    by (auto split: sum.splits)
  have "emitted_colors ys = []" using ys by (rule Cons.prems(1))
  moreover have "emitted_colors ws = []" using Cons.prems(1) ws by (rule Cons.IH)
  ultimately show ?case by (simp add: zs emitted_colors_append)
qed

lemma emit_triangle_no_colors:
  "emit_triangle nrm points indices idx v0 i = Inr ys \<Longrightarrow> emitted_colors ys = []"
  by (auto simp: emit_triangle_def triangle_calls_def split: sum.splits)

lemma triangulate_no_colors:
  "triangulate nrm points indices counts idx = Inr tris \<Longrightarrow> emitted_colors tris = []"
proof (induction counts arbitrary: idx tris)
  case Nil
  then show ?case by simp
next
  case (Cons count counts)
  show ?case
  proof (cases "3 \<le> count")
    case True
    with Cons.prems obtain v0 ts rest where
      ts: "for_each (emit_triangle nrm points indices idx v0) [1..count - 2] = Inr ts"
      and rest: "triangulate nrm points indices counts (idx + count) = Inr rest"
      and tris: "tris = ts @ rest"
      by (auto split: sum.splits)
    have "emitted_colors ts = []"
      using emit_triangle_no_colors ts by (rule for_each_no_colors)
    moreover have "emitted_colors rest = []" using rest by (rule Cons.IH)
    ultimately show ?thesis by (simp add: tris emitted_colors_append)
  next
    case False
    with Cons.prems have "triangulate nrm points indices counts (idx + count) = Inr tris" by simp
    then show ?thesis by (rule Cons.IH)
  qed
qed

lemma render_mesh_color:
  assumes "render_mesh self p = Inr calls" and "calls \<noteq> []"
  shows "emitted_colors calls = [get_display_color p default_display_color]"
proof -
  from assms obtain points indices counts tris where
    "triangulate normalize_or_up points indices counts 0 = Inr tris"
    and c: "calls = [glPushMatrix, glMultMatrix (world_transform p),
                glColor3f (get_display_color p default_display_color)]
               @ (case draw_mode_of self of
                    Wireframe \<Rightarrow> [glPolygonMode GL_LINE]
                  | Points \<Rightarrow> [glPolygonMode GL_POINT, glPointSize 3]
                  | Shaded \<Rightarrow> [])
               @ [glBegin GL_TRIANGLES] @ tris @ [glEnd]
               @ [glPolygonMode GL_FILL, glPopMatrix]"
    by (auto simp: render_mesh_def split: option.splits if_splits sum.splits)
  then have "emitted_colors tris = []" by (simp add: triangulate_no_colors)
  then show ?thesis unfolding c
    by (cases "draw_mode_of self") (simp_all add: emitted_colors_append)
qed

lemma render_mesh_simple_color:
  assumes "render_mesh_simple self p = Inr calls" and "calls \<noteq> []"
  shows "emitted_colors calls = [get_display_color p (0.7, 0.7, 0.8)]"
proof -
  from assms obtain points indices counts tris where
    "triangulate normalize_simple points indices counts 0 = Inr tris"
    and c: "calls = [glPushMatrix, glMultMatrix (world_transform p),
                (case display_color_attr p of
                      Some (c # cs) \<Rightarrow> glColor3f c
                    | _ \<Rightarrow> glColor3f (0.7, 0.7, 0.8))]
               @ [glBegin GL_TRIANGLES] @ tris @ [glEnd]
               @ [glPopMatrix]"
    by (auto simp: render_mesh_simple_def split: option.splits if_splits sum.splits)
  then have "emitted_colors tris = []" by (simp add: triangulate_no_colors)
  then show ?thesis unfolding c
    by (simp add: emitted_colors_append get_display_color_def split: option.splits list.splits)
qed

lemma extract_mesh_color:
  "extract_mesh_from_prim p = Inr m \<Longrightarrow> color m = get_display_color p (0.7, 0.7, 0.8)"
  by (auto simp: extract_mesh_from_prim_def compute_normals_def Mesh_init_def get_display_color_def
      split: sum.splits option.splits list.splits)

lemma side_wall_no_colors: "emitted_colors (side_wall radius half_h slices) = []"
  by (simp add: side_wall_def emitted_colors_append emitted_colors_concat Let_def)

lemma cap_fan_no_colors: "emitted_colors (cap_fan radius y n ring slices) = []"
  by (simp add: cap_fan_def emitted_colors_append emitted_colors_map_vertex)

lemma cone_side_no_colors: "emitted_colors (cone_side radius height slices) = []"
  by (simp add: cone_side_def emitted_colors_append emitted_colors_concat Let_def)

lemma sphere_strip_no_colors: "emitted_colors (sphere_strip radius slices stacks i) = []"
  by (simp add: sphere_strip_def emitted_colors_append emitted_colors_concat Let_def)

lemma capsule_band_no_colors: "emitted_colors (capsule_band radius half_h slices sign lat_i) = []"
  by (simp add: capsule_band_def emitted_colors_append emitted_colors_concat Let_def)

lemma render_cube_color:
  "emitted_colors (render_cube self p) = [get_display_color p (0.3, 0.5, 0.8)]"
  by (simp add: render_cube_def cube_faces_def Let_def)

lemma render_sphere_color:
  "emitted_colors (render_sphere self p) = [get_display_color p (0.8, 0.3, 0.3)]"
  by (simp add: render_sphere_def Let_def emitted_colors_append emitted_colors_concat
      sphere_strip_no_colors)

lemma render_cylinder_color:
  "emitted_colors (render_cylinder self p) = [get_display_color p (0.3, 0.7, 0.3)]"
  by (simp add: render_cylinder_def Let_def emitted_colors_append side_wall_no_colors
      cap_fan_no_colors)

lemma render_cone_color:
  "emitted_colors (render_cone self p) = [get_display_color p (0.9, 0.7, 0.2)]"
  by (simp add: render_cone_def Let_def emitted_colors_append cone_side_no_colors
      cap_fan_no_colors)

lemma render_capsule_color:
  "emitted_colors (render_capsule self p) = [get_display_color p (0.8, 0.5, 0.2)]"
  by (simp add: render_capsule_def Let_def emitted_colors_append emitted_colors_concat
      side_wall_no_colors capsule_band_no_colors)

text \<open>
  C8, as claimed: every prim without a display colour is drawn in the gray
  \<open>(0.7, 0.7, 0.8)\<close> whatever its type. A Cube prim without a display colour is drawn in
  \<open>(0.3, 0.5, 0.8)\<close>.
\<close>

theorem cube_fallback_color_counterexample:
  "display_color_attr (bare_prim Cube) = None
   \<and> emitted_colors (render_cube initial_viewport (bare_prim Cube)) = [(0.3, 0.5, 0.8)]
   \<and> emitted_colors (render_cube initial_viewport (bare_prim Cube)) \<noteq> [(0.7, 0.7, 0.8)]"
  by (simp add: render_cube_color get_display_color_def bare_prim_def)

text \<open>
  C8, amended. A prim without a display colour (no value, or an empty array) is drawn in the
  gray \<open>(0.7, 0.7, 0.8)\<close> when it is drawn as a mesh, by each of the three viewers; a
  primitive is drawn in the fallback colour of its type: cube \<open>(0.3, 0.5, 0.8)\<close>, sphere
  \<open>(0.8, 0.3, 0.3)\<close>, cylinder \<open>(0.3, 0.7, 0.3)\<close>, cone \<open>(0.9, 0.7, 0.2)\<close>, capsule
  \<open>(0.8, 0.5, 0.2)\<close>.
\<close>

theorem fallback_colors:
  assumes "display_color_attr p = None \<or> display_color_attr p = Some []"
  shows "(\<forall>calls. render_mesh self p = Inr calls \<and> calls \<noteq> []
            \<longrightarrow> emitted_colors calls = [(0.7, 0.7, 0.8)])
       \<and> (\<forall>calls. render_mesh_simple self p = Inr calls \<and> calls \<noteq> []
            \<longrightarrow> emitted_colors calls = [(0.7, 0.7, 0.8)])
       \<and> (\<forall>m. extract_mesh_from_prim p = Inr m \<longrightarrow> color m = (0.7, 0.7, 0.8))
       \<and> emitted_colors (render_cube self p) = [(0.3, 0.5, 0.8)]
       \<and> emitted_colors (render_sphere self p) = [(0.8, 0.3, 0.3)]
       \<and> emitted_colors (render_cylinder self p) = [(0.3, 0.7, 0.3)]
       \<and> emitted_colors (render_cone self p) = [(0.9, 0.7, 0.2)]
       \<and> emitted_colors (render_capsule self p) = [(0.8, 0.5, 0.2)]"
proof -
  have d: "get_display_color p c = c" for c
    using assms by (auto simp: get_display_color_def)
  show ?thesis
    using render_mesh_color [of self p] render_mesh_simple_color [of self p]
      extract_mesh_color [of p]
    by (simp add: d default_display_color_def render_cube_color render_sphere_color
        render_cylinder_color render_cone_color render_capsule_color)
qed

theorem fallback_colors_witness:
  "(display_color_attr quad_prim = None \<or> display_color_attr quad_prim = Some [])
   \<and> (\<exists>calls. render_mesh initial_viewport quad_prim = Inr calls \<and> calls \<noteq> []
         \<and> emitted_colors calls = [(0.7, 0.7, 0.8)])
   \<and> emitted_colors (render_cube initial_viewport quad_prim) = [(0.3, 0.5, 0.8)]"
proof -
  have h: "display_color_attr quad_prim = None \<or> display_color_attr quad_prim = Some []"
    by (simp add: quad_prim_def bare_prim_def)
  have "\<exists>calls. render_mesh initial_viewport quad_prim = Inr calls \<and> calls \<noteq> []"
    by (simp add: quad_prim_def bare_prim_def render_mesh_def fetch_def py_index_def
        emit_triangle_def upto.simps)
  then obtain calls where c: "render_mesh initial_viewport quad_prim = Inr calls" "calls \<noteq> []"
    by blast
  show ?thesis
    using fallback_colors [OF h, of initial_viewport] h c by blast
qed

section \<open>The tessellation is a function of the shape parameters\<close>




section \<open>Rendering a mesh with invalid indices\<close>

lemma for_each_total:
  "(\<And>x. x \<in> set xs \<Longrightarrow> \<exists>ys. body x = Inr ys) \<Longrightarrow> \<exists>zs. for_each body xs = Inr zs"
proof (induction xs)
  case Nil
  then show ?case by simp
next
  case (Cons x xs)
  obtain ys where "body x = Inr ys" using Cons.prems by auto
  moreover obtain zs where "for_each body xs = Inr zs" using Cons by auto
  ultimately show ?case by simp
qed

lemma render_vertex_total:
  "- int (length vs) \<le> k \<Longrightarrow> \<exists>calls. render_vertex vs k = Inr calls"
  by (simp add: render_vertex_def py_index_def Let_def)

lemma mesh_render_total:
  assumes "\<forall>face\<in>set (faces m). \<forall>k\<in>set (take 3 face). - int (length (vertices m)) \<le> k"
  shows "\<exists>calls. mesh_render m wireframe = Inr calls"
proof -
  have face: "\<exists>ys. render_face m x = Inr ys" if "x \<in> set (enumerate 0 (faces m))" for x
  proof -
    obtain i f where x: "x = (i, f)" by (cases x)
    with that have "f \<in> set (faces m)" by (auto simp: in_set_enumerate_eq)
    then have "\<And>k. k \<in> set (take 3 f) \<Longrightarrow> \<exists>ys. render_vertex (vertices m) k = Inr ys"
      using assms render_vertex_total by blast
    then obtain vs where "for_each (render_vertex (vertices m)) (take 3 f) = Inr vs"
      using for_each_total by blast
    then show ?thesis by (simp add: render_face_def x)
  qed
  then obtain body where "for_each (render_face m) (enumerate 0 (faces m)) = Inr body"
    using for_each_total by blast
  then show ?thesis by (simp add: mesh_render_def)
qed

lemma for_each_subset:
  "(\<And>x ys. x \<in> set xs \<Longrightarrow> body x = Inr ys \<Longrightarrow> set ys \<subseteq> S) \<Longrightarrow>
   for_each body xs = Inr zs \<Longrightarrow> set zs \<subseteq> S"
proof (induction xs arbitrary: zs)
  case Nil
  then show ?case by simp
next
  case (Cons x xs)
  from Cons.prems(2) obtain ys ws where ys: "body x = Inr ys" and ws: "for_each body xs = Inr ws"
    and zs: "zs = ys @ ws"
    by (auto split: sum.splits)
  have "set ys \<subseteq> S" using Cons.prems(1) [of x ys] ys by simp
  moreover have "set ws \<subseteq> S"
  proof (rule Cons.IH [OF _ ws])
    fix x' ys' assume "x' \<in> set xs" and "body x' = Inr ys'"
    then show "set ys' \<subseteq> S" using Cons.prems(1) [of x' ys'] by simp
  qed
  ultimately show ?case by (simp add: zs)
qed

lemma py_index_in_range:
  "py_index xs k = Inr v \<Longrightarrow> - int (length xs) \<le> k \<and> k < int (length xs) \<and> v \<in> set xs"
  by (auto simp: py_index_def split: if_splits)

lemma render_vertex_skips: "int (length vs) \<le> k \<Longrightarrow> render_vertex vs k = Inr []"
  by (simp add: render_vertex_def)

lemma render_vertex_subset:
  "render_vertex vs k = Inr ys \<Longrightarrow> set ys \<subseteq> glVertex3f ` set vs"
  by (auto simp: render_vertex_def split: if_splits sum.splits dest: py_index_in_range)

lemma render_face_subset:
  assumes "render_face m (i, face) = Inr ys"
  shows "set ys \<subseteq> glVertex3f ` set (vertices m)
           \<union> (if i < length (normals m) then {glNormal3f (normals m ! i)} else {})"
proof -
  from assms obtain vcalls where
    v: "for_each (render_vertex (vertices m)) (take 3 face) = Inr vcalls"
    and ys: "ys = (if i < length (normals m) then [glNormal3f (normals m ! i)] else []) @ vcalls"
    by (auto simp: render_face_def split: sum.splits)
  have "set vcalls \<subseteq> glVertex3f ` set (vertices m)"
    using render_vertex_subset v by (rule for_each_subset)
  then show ?thesis unfolding ys by auto
qed

lemma render_face_skips_normal:
  assumes "length (normals m) \<le> i" and "render_face m (i, face) = Inr ys"
  shows "glNormal3f n \<notin> set ys"
  using render_face_subset [OF assms(2)] assms(1) by auto

lemma mesh_render_reads_stored:
  assumes "mesh_render m wireframe = Inr calls"
  shows "(glVertex3f v \<in> set calls \<longrightarrow> v \<in> set (vertices m))
       \<and> (glNormal3f n \<in> set calls \<longrightarrow> n \<in> set (normals m))"
proof -
  let ?S = "glVertex3f ` set (vertices m) \<union> glNormal3f ` set (normals m)"
  from assms obtain body where
    b: "for_each (render_face m) (enumerate 0 (faces m)) = Inr body"
    and c: "calls = [glPushMatrix, glMultMatrix (transform m)]
               @ (if wireframe then [glPolygonMode GL_LINE, glColor3f (0.2, 0.2, 0.2)]
                  else [glPolygonMode GL_FILL, glColor3f (color m)])
               @ [glBegin GL_TRIANGLES] @ body @ [glEnd]
               @ [glPolygonMode GL_FILL, glPopMatrix]"
    by (auto simp: mesh_render_def split: sum.splits)
  have "set ys \<subseteq> ?S" if "render_face m x = Inr ys" for x ys
  proof -
    obtain i f where x: "x = (i, f)" by (cases x)
    show ?thesis using render_face_subset [of m i f ys] that unfolding x
      by (auto split: if_splits)
  qed
  then have "set body \<subseteq> ?S" using b by (rule for_each_subset)
  then show ?thesis unfolding c by auto
qed

lemma compute_normals_loop_range:
  "compute_normals_loop vs fs = Inr ns \<Longrightarrow> f \<in> set fs \<Longrightarrow> length f = 3 \<Longrightarrow>
   k \<in> set f \<Longrightarrow> - int (length vs) \<le> k"
proof (induction fs arbitrary: ns)
  case Nil
  then show ?case by simp
next
  case (Cons g fs)
  show ?case
  proof (cases "f = g")
    case True
    with Cons.prems(3) have l: "3 \<le> length g" by simp
    with Cons.prems(1) obtain v0 v1 v2 where
      p: "py_index vs (g ! 0) = Inr v0" "py_index vs (g ! 1) = Inr v1"
         "py_index vs (g ! 2) = Inr v2"
      by (auto split: sum.splits)
    have r: "- int (length vs) \<le> g ! 0" "- int (length vs) \<le> g ! 1"
      "- int (length vs) \<le> g ! 2"
      using py_index_in_range [OF p(1)] py_index_in_range [OF p(2)] py_index_in_range [OF p(3)]
      by simp_all
    from Cons.prems(3,4) True obtain j where "j < 3" "k = g ! j"
      by (auto simp: in_set_conv_nth)
    then have "j = 0 \<or> j = 1 \<or> j = 2" by auto
    with r \<open>k = g ! j\<close> show ?thesis by auto
  next
    case False
    with Cons.prems(2) have f: "f \<in> set fs" by simp
    from Cons.prems(1) obtain ms where "compute_normals_loop vs fs = Inr ms"
      by (auto split: if_splits sum.splits)
    then show ?thesis using f Cons.prems(3,4) by (rule Cons.IH)
  qed
qed

lemma fan_triples: "f \<in> set (fan face) \<Longrightarrow> length f = 3"
  by (auto simp: fan_def split: if_splits)

lemma extract_faces_triples: "f \<in> set (extract_faces indices counts idx) \<Longrightarrow> length f = 3"
proof (induction counts arbitrary: idx)
  case Nil
  then show ?case by simp
next
  case (Cons count counts)
  then show ?case by (auto split: prod.splits dest: fan_triples)
qed

lemma computed_mesh_renders:
  assumes "compute_normals m0 = Inr m" and "\<forall>f\<in>set (faces m0). length f = 3"
  shows "\<exists>calls. mesh_render m wireframe = Inr calls"
proof -
  from assms(1) obtain ns where ns: "compute_normals_loop (vertices m0) (faces m0) = Inr ns"
    and m: "m = m0\<lparr>normals := ns\<rparr>"
    by (auto simp: compute_normals_def split: sum.splits)
  have "\<forall>face\<in>set (faces m). \<forall>k\<in>set (take 3 face). - int (length (vertices m)) \<le> k"
  proof (intro ballI)
    fix face k assume f: "face \<in> set (faces m)" and k: "k \<in> set (take 3 face)"
    from f have f0: "face \<in> set (faces m0)" by (simp add: m)
    then have l: "length face = 3" using assms(2) by blast
    then have "k \<in> set face" using k by simp
    then have "- int (length (vertices m0)) \<le> k"
      using compute_normals_loop_range [OF ns f0 l] by blast
    then show "- int (length (vertices m)) \<le> k" by (simp add: m)
  qed
  then show ?thesis by (rule mesh_render_total)
qed

lemma extracted_mesh_total:
  assumes "extract_mesh_from_prim p = Inr m"
  shows "\<exists>calls. mesh_render m wireframe = Inr calls"
proof -
  let ?m0 = "Mesh_init
         \<lparr>vertices := (case points_attr p of Some ps \<Rightarrow> ps | None \<Rightarrow> []),
          faces := (case (face_vertex_indices_attr p, face_vertex_counts_attr p) of
                      (Some indices, Some counts) \<Rightarrow>
                         if indices \<noteq> [] \<and> counts \<noteq> [] then extract_faces indices counts 0 else []
                    | _ \<Rightarrow> []),
          color := (case display_color_attr p of
                      Some (c # cs) \<Rightarrow> c
                    | _ \<Rightarrow> color Mesh_init),
          transform := world_transform p\<rparr>"
  have c: "compute_normals ?m0 = Inr m" using assms by (simp add: extract_mesh_from_prim_def)
  have "\<forall>f\<in>set (faces ?m0). length f = 3"
    by (auto split: option.splits if_splits dest: extract_faces_triples)
  with c show ?thesis by (rule computed_mesh_renders)
qed


lemma sample_cube_total:
  assumes "create_sample_cube = Inr m"
  shows "\<exists>calls. mesh_render m wireframe = Inr calls"
  using assms unfolding create_sample_cube_def
  by (rule computed_mesh_renders) simp

text \<open>
  The bound on the indices is needed for a mesh assembled by hand: the guard of \<open>render\<close>
  compares from above only, so an index below \<open>-len(vertices)\<close> reaches the subscript. No
  mesh that went through \<open>compute_normals\<close> holds one.
\<close>

lemma mesh_render_below_range:
  "mesh_render (Mesh_init\<lparr>vertices := [(0, 0, 0), (1, 0, 0), (0, 1, 0)], faces := [[0, 1, - 4]]\<rparr>)
     wireframe = Inl IndexError"
  by (simp add: mesh_render_def render_face_def render_vertex_def py_index_def enumerate_eq_zip)

text \<open>
  C10. \<open>Mesh.render\<close> never reads past the end of the stored arrays. On every mesh whose
  face indices are not below \<open>-len(vertices)\<close>, however large they are and however few
  normals are stored, it returns, and every vertex and normal it hands to the draw surface
  is an element of \<open>vertices\<close> or \<open>normals\<close>; a vertex index that is not less than the vertex
  count is skipped, and so is the normal of a triangle whose number is not less than the
  normals count. Every mesh that \<open>extract_mesh_from_prim\<close> or \<open>create_sample_cube\<close> returns
  is rendered without an exception.
\<close>

theorem mesh_render_skips_out_of_range:
  assumes "\<forall>face\<in>set (faces m). \<forall>k\<in>set (take 3 face). - int (length (vertices m)) \<le> k"
  shows "(\<exists>calls. mesh_render m wireframe = Inr calls
            \<and> (\<forall>v. glVertex3f v \<in> set calls \<longrightarrow> v \<in> set (vertices m))
            \<and> (\<forall>n. glNormal3f n \<in> set calls \<longrightarrow> n \<in> set (normals m)))
       \<and> (\<forall>k. int (length (vertices m)) \<le> k \<longrightarrow> render_vertex (vertices m) k = Inr [])
       \<and> (\<forall>i face ys n. length (normals m) \<le> i \<and> render_face m (i, face) = Inr ys
             \<longrightarrow> glNormal3f n \<notin> set ys)
       \<and> (\<forall>p m'. extract_mesh_from_prim p = Inr m'
             \<longrightarrow> (\<exists>calls. mesh_render m' wireframe = Inr calls))
       \<and> (\<forall>m'. create_sample_cube = Inr m'
             \<longrightarrow> (\<exists>calls. mesh_render m' wireframe = Inr calls))"
proof -
  obtain calls where c: "mesh_render m wireframe = Inr calls"
    using mesh_render_total [OF assms] by blast
  have a: "\<exists>calls. mesh_render m wireframe = Inr calls
            \<and> (\<forall>v. glVertex3f v \<in> set calls \<longrightarrow> v \<in> set (vertices m))
            \<and> (\<forall>n. glNormal3f n \<in> set calls \<longrightarrow> n \<in> set (normals m))"
    using c mesh_render_reads_stored [OF c] by blast
  have b: "\<forall>k. int (length (vertices m)) \<le> k \<longrightarrow> render_vertex (vertices m) k = Inr []"
    by (simp add: render_vertex_skips)
  have d: "\<forall>i face ys n. length (normals m) \<le> i \<and> render_face m (i, face) = Inr ys
             \<longrightarrow> glNormal3f n \<notin> set ys"
    using render_face_skips_normal by blast
  have e: "\<forall>p m'. extract_mesh_from_prim p = Inr m'
             \<longrightarrow> (\<exists>calls. mesh_render m' wireframe = Inr calls)"
    using extracted_mesh_total by blast
  have f: "\<forall>m'. create_sample_cube = Inr m'
             \<longrightarrow> (\<exists>calls. mesh_render m' wireframe = Inr calls)"
    using sample_cube_total by blast
  show ?thesis using a b d e f by blast
qed

theorem mesh_render_skips_out_of_range_witness:
  "mesh_render
     (Mesh_init\<lparr>vertices := [(0, 0, 0), (1, 0, 0), (0, 1, 0)], faces := [[0, 1, 7], [5, 2, - 1]]\<rparr>)
     False
   = Inr [glPushMatrix, glMultMatrix identity4, glPolygonMode GL_FILL, glColor3f (0.7, 0.7, 0.8),
          glBegin GL_TRIANGLES,
          glVertex3f (0, 0, 0), glVertex3f (1, 0, 0),
          glVertex3f (0, 1, 0), glVertex3f (0, 1, 0),
          glEnd, glPolygonMode GL_FILL, glPopMatrix]"
  using mesh_render_skips_out_of_range
    [of "Mesh_init\<lparr>vertices := [(0, 0, 0), (1, 0, 0), (0, 1, 0)],
                    faces := [[0, 1, 7], [5, 2, - 1]]\<rparr>" False]
  by (simp add: mesh_render_def render_face_def render_vertex_def py_index_def enumerate_eq_zip
      Mesh_init_def)

end
